theory Spec2Isabelle
  imports Main
begin

section \<open>Python values used by the geocoder\<close>

text \<open>
  The two functions of \<^verbatim>\<open>derilinx_geocoder_api.py\<close> that carry the logic are
  \<^verbatim>\<open>address_handler\<close> (the tokenizer) and \<^verbatim>\<open>extract_gps_coordinates\<close> (the matcher).
  Both can raise: \<^verbatim>\<open>word[0]\<close> on an empty string raises IndexError, and asking a
  pandas frame for a column it does not have raises KeyError.
\<close>

datatype py_error = IndexError | KeyError

subsection \<open>Strings\<close>

text \<open>
  A Python \<^verbatim>\<open>str\<close> is modelled as a \<^typ>\<open>string\<close> of ASCII characters.
  \<^verbatim>\<open>str.upper\<close> maps \<^verbatim>\<open>a..z\<close> to \<^verbatim>\<open>A..Z\<close> and leaves every other ASCII character
  alone; \<^verbatim>\<open>str.split()\<close> without argument splits at runs of the ASCII white space
  characters (codes 9 to 13, 28 to 32) and drops leading and trailing white space.
\<close>

definition upper_char :: "char \<Rightarrow> char" where
  "upper_char c =
     (let n = (of_char c :: nat) in if 97 \<le> n \<and> n \<le> 122 then char_of (n - 32) else c)"

definition upper :: "string \<Rightarrow> string" where
  "upper s = map upper_char s"

definition isspace :: "char \<Rightarrow> bool" where
  "isspace c = (let n = (of_char c :: nat) in (9 \<le> n \<and> n \<le> 13) \<or> (28 \<le> n \<and> n \<le> 32))"

text \<open>\<^verbatim>\<open>s.split(sep)\<close> for a one-character separator: never an empty list.\<close>

fun split_sep :: "char \<Rightarrow> string \<Rightarrow> string list" where
  "split_sep sep [] = [[]]"
| "split_sep sep (c # cs) =
     (if c = sep then [] # split_sep sep cs
      else (case split_sep sep cs of
              w # ws \<Rightarrow> (c # w) # ws
            | [] \<Rightarrow> [[c]]))"

text \<open>
  \<^verbatim>\<open>s.split()\<close>: the first argument is the word read so far.
\<close>

fun split_ws :: "string \<Rightarrow> string \<Rightarrow> string list" where
  "split_ws cur [] = (if cur = [] then [] else [cur])"
| "split_ws cur (c # cs) =
     (if isspace c then (if cur = [] then split_ws [] cs else cur # split_ws [] cs)
      else split_ws (cur @ [c]) cs)"

definition split_whitespace :: "string \<Rightarrow> string list" where
  "split_whitespace s = split_ws [] s"

text \<open>\<^verbatim>\<open>s.replace('.', '')\<close>.\<close>

definition remove_dots :: "string \<Rightarrow> string" where
  "remove_dots s = filter (\<lambda>c. c \<noteq> CHR ''.'') s"

section \<open>The tokenizer: \<^verbatim>\<open>address_handler\<close>\<close>

text \<open>
  First loop of the source:
  \<^verbatim>\<open>
  for word in _address_separated_list:
      if word == '':
          _address_separated_list.remove(word)
  \<close>
  The list is changed while it is iterated. Python's list iterator is an index into the
  live list: it reads position \<open>i\<close>, moves to \<open>i + 1\<close> and stops when the index reaches
  the current length. \<^verbatim>\<open>remove\<close> deletes the first occurrence of the empty string, which
  need not be the one at position \<open>i\<close>.
\<close>

function remove_empty_loop :: "nat \<Rightarrow> string list \<Rightarrow> string list" where
  "remove_empty_loop i xs =
     (if i < length xs
      then (if xs ! i = [] then remove_empty_loop (Suc i) (remove1 [] xs)
            else remove_empty_loop (Suc i) xs)
      else xs)"
  by pat_completeness auto
termination
  by (relation "measure (\<lambda>(i, xs). length xs - i)") (auto simp: length_remove1)

text \<open>
  Second loop:
  \<^verbatim>\<open>
  for index, word in enumerate(_address_separated_list):
      if word[0] == ' ':
          _address_separated_list[index] = _address_separated_list[index][1:]
      _address_separated_list[index] = _address_separated_list[index].replace('.', '')
  \<close>
  \<^verbatim>\<open>word[0]\<close> raises IndexError when the word is empty; the exception leaves the
  function.
\<close>

fun strip_loop :: "string list \<Rightarrow> py_error + string list" where
  "strip_loop [] = Inr []"
| "strip_loop ([] # ws) = Inl IndexError"
| "strip_loop ((c # cs) # ws) =
     (case strip_loop ws of
        Inl e \<Rightarrow> Inl e
      | Inr r \<Rightarrow> Inr (remove_dots (if c = CHR '' '' then cs else c # cs) # r))"

text \<open>
  Third loop:
  \<^verbatim>\<open>
  for word in _address_separated_list:
      if ' ' in word:
          _aux = word.split()
          for element in _aux:
              final_address_list.append(element.upper())
      else:
          final_address_list.append(word.upper())
  \<close>
\<close>

definition word_tokens :: "string \<Rightarrow> string list" where
  "word_tokens word =
     (if CHR '' '' \<in> set word then map upper (split_whitespace word) else [upper word])"

definition final_loop :: "string list \<Rightarrow> string list" where
  "final_loop ws = concat (map word_tokens ws)"

definition address_handler :: "string \<Rightarrow> py_error + string list" where
  "address_handler full_address =
     (case strip_loop (remove_empty_loop 0 (split_sep CHR '','' full_address)) of
        Inl e \<Rightarrow> Inl e
      | Inr ws \<Rightarrow> Inr (final_loop ws))"

section \<open>The reference tables\<close>

text \<open>
  \<^verbatim>\<open>TOWNLANDS_DF\<close> and \<^verbatim>\<open>COUNTIES_DF\<close> are pandas frames read from two CSV files that
  are not part of the source; they are parameters of the model. The program looks at
  four columns only, so a row records its cells in these four columns, and the frame
  records which columns it has (a cell of a column the frame does not have is never
  read: asking for the column raises KeyError first). The return statement projects the
  same four columns out of a selection of either table, as the docstring
  \<^verbatim>\<open>:return: DataFrame['County', 'English_Name', 'Y', 'X']\<close> says, so a table that
  lacks one of them makes every result drawn from it raise KeyError.
\<close>

record row =
  County :: string
  English_Name :: string
  Y :: string
  X :: string

record DataFrame =
  columns :: "string list"
  rows :: "row list"

text \<open>\<^verbatim>\<open>pandas.DataFrame()\<close>: no columns and no rows.\<close>

definition new_DataFrame :: DataFrame where
  "new_DataFrame = \<lparr>columns = [], rows = []\<rparr>"

text \<open>\<^verbatim>\<open>df.empty\<close>: some axis has length 0.\<close>

definition df_empty :: "DataFrame \<Rightarrow> bool" where
  "df_empty df = (columns df = [] \<or> rows df = [])"

text \<open>\<^verbatim>\<open>df[name]\<close> raises KeyError unless the frame has the column.\<close>

definition has_column :: "DataFrame \<Rightarrow> string \<Rightarrow> bool" where
  "has_column df name = (name \<in> set (columns df))"

text \<open>
  \<^verbatim>\<open>df.loc[mask]\<close> keeps the rows where the mask holds, in order, with the same columns.
\<close>

definition loc :: "DataFrame \<Rightarrow> (row \<Rightarrow> bool) \<Rightarrow> DataFrame" where
  "loc df keep = df\<lparr>rows := filter keep (rows df)\<rparr>"

text \<open>
  \<^verbatim>\<open>df[[c1, ..., cn]]\<close>: the frame restricted to the listed columns; KeyError when one
  of them is missing.
\<close>

definition getitem_columns :: "DataFrame \<Rightarrow> string list \<Rightarrow> py_error + DataFrame" where
  "getitem_columns df names =
     (if list_all (has_column df) names then Inr (df\<lparr>columns := names\<rparr>)
      else Inl KeyError)"

definition result_columns :: "string list" where
  "result_columns = [''County'', ''English_Name'', ''Y'', ''X'']"

section \<open>The matcher: \<^verbatim>\<open>extract_gps_coordinates\<close>\<close>

text \<open>
  \<^verbatim>\<open>
  TOWNLANDS_DF.loc[(TOWNLANDS_DF['County'] == address_list[-1]) &
                   (TOWNLANDS_DF['English_Name'] == address_list[0])]
  \<close>
\<close>

definition townlands_lookup :: "DataFrame \<Rightarrow> string \<Rightarrow> string \<Rightarrow> py_error + DataFrame" where
  "townlands_lookup TOWNLANDS_DF county name =
     (if has_column TOWNLANDS_DF ''County'' \<and> has_column TOWNLANDS_DF ''English_Name''
      then Inr (loc TOWNLANDS_DF (\<lambda>r. County r = county \<and> English_Name r = name))
      else Inl KeyError)"

text \<open>\<^verbatim>\<open>COUNTIES_DF.loc[COUNTIES_DF['County'] == address_list[0]]\<close>\<close>

definition counties_lookup :: "DataFrame \<Rightarrow> string \<Rightarrow> py_error + DataFrame" where
  "counties_lookup COUNTIES_DF county =
     (if has_column COUNTIES_DF ''County''
      then Inr (loc COUNTIES_DF (\<lambda>r. County r = county))
      else Inl KeyError)"

text \<open>
  The loop
  \<^verbatim>\<open>
  while _matched_df.empty and len(address_list) >= 1:
      _matched_df = TOWNLANDS_DF.loc[...]
      if len(address_list) == 1:
          _matched_df = COUNTIES_DF.loc[...]
      address_list.pop(0)
  \<close>
  \<^verbatim>\<open>address_list\<close> is the caller's list object and \<^verbatim>\<open>pop(0)\<close> changes it in place, so
  the model returns, next to the frame (or the error), what the list holds when the
  function is left.
\<close>

fun while_loop ::
  "DataFrame \<Rightarrow> DataFrame \<Rightarrow> DataFrame \<Rightarrow> string list \<Rightarrow> (py_error + DataFrame) \<times> string list"
where
  "while_loop TOWNLANDS_DF COUNTIES_DF matched_df [] = (Inr matched_df, [])"
| "while_loop TOWNLANDS_DF COUNTIES_DF matched_df (t # ts) =
     (if df_empty matched_df
      then (case townlands_lookup TOWNLANDS_DF (last (t # ts)) t of
              Inl e \<Rightarrow> (Inl e, t # ts)
            | Inr m1 \<Rightarrow>
                (case (if ts = [] then counties_lookup COUNTIES_DF t else Inr m1) of
                   Inl e \<Rightarrow> (Inl e, t # ts)
                 | Inr m2 \<Rightarrow> while_loop TOWNLANDS_DF COUNTIES_DF m2 ts))
      else (Inr matched_df, t # ts))"

definition extract_gps_coordinates ::
  "DataFrame \<Rightarrow> DataFrame \<Rightarrow> string list \<Rightarrow> (py_error + DataFrame) \<times> string list"
where
  "extract_gps_coordinates TOWNLANDS_DF COUNTIES_DF address_list =
     (case while_loop TOWNLANDS_DF COUNTIES_DF new_DataFrame address_list of
        (Inl e, rest) \<Rightarrow> (Inl e, rest)
      | (Inr matched_df, rest) \<Rightarrow> (getitem_columns matched_df result_columns, rest))"

text \<open>
  \<^verbatim>\<open>api_filter\<close> without its HTTP wrapping: tokenize the address, then match the tokens.
\<close>

definition api_filter :: "DataFrame \<Rightarrow> DataFrame \<Rightarrow> string \<Rightarrow> py_error + DataFrame" where
  "api_filter TOWNLANDS_DF COUNTIES_DF address =
     (case address_handler address of
        Inl e \<Rightarrow> Inl e
      | Inr address_words \<Rightarrow> fst (extract_gps_coordinates TOWNLANDS_DF COUNTIES_DF address_words))"

section \<open>Notions used in the statements\<close>

text \<open>
  The rows of the Places table with a given county and name, and the rows of the Counties
  table with a given county, in table order and with repetitions.
\<close>

definition places_of :: "DataFrame \<Rightarrow> string \<Rightarrow> string \<Rightarrow> row list" where
  "places_of TOWNLANDS_DF county name =
     filter (\<lambda>r. County r = county \<and> English_Name r = name) (rows TOWNLANDS_DF)"

definition counties_of :: "DataFrame \<Rightarrow> string \<Rightarrow> row list" where
  "counties_of COUNTIES_DF county = filter (\<lambda>r. County r = county) (rows COUNTIES_DF)"

text \<open>The frame the matcher returns for a list of rows: the four result columns.\<close>

definition result_frame :: "row list \<Rightarrow> DataFrame" where
  "result_frame rs = \<lparr>columns = result_columns, rows = rs\<rparr>"

text \<open>A table has the four columns the matcher asks for.\<close>

definition has_result_columns :: "DataFrame \<Rightarrow> bool" where
  "has_result_columns df = list_all (has_column df) result_columns"

text \<open>
  The position of the first token before the last whose place lookup, with the last token
  as county, finds a row; \<open>length ts - 1\<close> when there is none.
\<close>

definition first_hit :: "DataFrame \<Rightarrow> string list \<Rightarrow> nat" where
  "first_hit TOWNLANDS_DF ts =
     length (takeWhile (\<lambda>name. places_of TOWNLANDS_DF (last ts) name = []) (butlast ts))"

text \<open>Two small tables on which the statements are tried.\<close>

definition example_townlands :: DataFrame where
  "example_townlands =
     \<lparr>columns = [''County'', ''English_Name'', ''Y'', ''X''],
      rows = [\<lparr>County = ''CARLOW'', English_Name = ''JOHNSTOWN'', Y = ''52.82'', X = ''-6.86''\<rparr>,
              \<lparr>County = ''CARLOW'', English_Name = ''CARLOW'', Y = ''52.83'', X = ''-6.93''\<rparr>]\<rparr>"

definition example_counties :: DataFrame where
  "example_counties =
     \<lparr>columns = [''County'', ''English_Name'', ''Y'', ''X''],
      rows = [\<lparr>County = ''CARLOW'', English_Name = ''CARLOW'', Y = ''52.69'', X = ''-6.83''\<rparr>]\<rparr>"

text \<open>
  The tokenizer as the specification words it, a pure pipeline over the comma-separated
  segments: split at commas; discard the segments that are the empty string; strip one
  leading space and remove all periods; split a segment that contains a space into its
  words; upper-case. It is compared with \<^verbatim>\<open>address_handler\<close> below.
\<close>

definition clean_segment :: "string \<Rightarrow> string" where
  "clean_segment w =
     remove_dots (case w of [] \<Rightarrow> [] | c # cs \<Rightarrow> if c = CHR '' '' then cs else c # cs)"

definition tokenize :: "string \<Rightarrow> string list" where
  "tokenize raw =
     concat (map (\<lambda>segment. word_tokens (clean_segment segment))
                 (filter (\<lambda>segment. segment \<noteq> []) (split_sep CHR '','' raw)))"

text \<open>Two neighbouring segments are both the empty string.\<close>

fun adjacent_empty :: "string list \<Rightarrow> bool" where
  "adjacent_empty (x # y # zs) = ((x = [] \<and> y = []) \<or> adjacent_empty (y # zs))"
| "adjacent_empty [x] = False"
| "adjacent_empty [] = False"

text \<open>An address made of commas, spaces and periods only.\<close>

definition only_delimiters :: "string \<Rightarrow> bool" where
  "only_delimiters s = list_all (\<lambda>c. c = CHR '','' \<or> c = CHR '' '' \<or> c = CHR ''.'') s"

section \<open>The tokenizer on the address of the documentation\<close>

text \<open>
  C8: \<^verbatim>\<open>address_handler("Johnstown, Bennekerry, Co Carlow")\<close> returns the four tokens
  JOHNSTOWN, BENNEKERRY, CO, CARLOW in this order.
\<close>

theorem address_handler_johnstown:
  "address_handler ''Johnstown, Bennekerry, Co Carlow''
     = Inr [''JOHNSTOWN'', ''BENNEKERRY'', ''CO'', ''CARLOW'']"
  by code_simp

section \<open>The matcher\<close>

lemma has_result_columns_iff:
  "has_result_columns df \<longleftrightarrow>
     has_column df ''County'' \<and> has_column df ''English_Name'' \<and>
     has_column df ''Y'' \<and> has_column df ''X''"
  by (simp add: has_result_columns_def result_columns_def)

lemma columns_nonempty: "has_column df name \<Longrightarrow> columns df \<noteq> []"
  by (auto simp: has_column_def)

lemma townlands_lookup_ok:
  "has_result_columns T \<Longrightarrow>
   townlands_lookup T c n = Inr (T\<lparr>rows := places_of T c n\<rparr>)"
  by (simp add: townlands_lookup_def has_result_columns_iff loc_def places_of_def)

lemma counties_lookup_ok:
  "has_result_columns C \<Longrightarrow> counties_lookup C c = Inr (C\<lparr>rows := counties_of C c\<rparr>)"
  by (simp add: counties_lookup_def has_result_columns_iff loc_def counties_of_def)

lemma df_empty_rows: "has_result_columns df \<Longrightarrow> df_empty (df\<lparr>rows := rs\<rparr>) \<longleftrightarrow> rs = []"
  by (auto simp: df_empty_def has_result_columns_iff dest: columns_nonempty)

lemma while_loop_nonempty_frame:
  "\<not> df_empty m \<Longrightarrow> while_loop T C m ts = (Inr m, ts)"
  by (cases ts) simp_all

lemma while_loop_search:
  assumes T: "has_result_columns T" and C: "has_result_columns C"
  shows "ts \<noteq> [] \<Longrightarrow> df_empty m \<Longrightarrow>
     while_loop T C m ts =
       (if first_hit T ts < length ts - 1
        then (Inr (T\<lparr>rows := places_of T (last ts) (ts ! first_hit T ts)\<rparr>),
              drop (Suc (first_hit T ts)) ts)
        else (Inr (C\<lparr>rows := counties_of C (last ts)\<rparr>), []))"
proof (induction ts arbitrary: m)
  case Nil
  then show ?case by simp
next
  case (Cons t ts)
  show ?case
  proof (cases "ts = []")
    case True
    with Cons.prems T C show ?thesis
      by (simp add: townlands_lookup_ok counties_lookup_ok first_hit_def)
  next
    case False
    show ?thesis
    proof (cases "places_of T (last ts) t = []")
      case True
      have e: "df_empty (T\<lparr>rows := places_of T (last ts) t\<rparr>)"
        using T True by (simp add: df_empty_rows)
      from Cons.IH [OF False e] False True Cons.prems T show ?thesis
        by (simp add: townlands_lookup_ok first_hit_def)
    next
      case hit: False
      then have ne: "\<not> df_empty (T\<lparr>rows := places_of T (last ts) t\<rparr>)"
        using T by (simp add: df_empty_rows)
      from False hit Cons.prems T ne show ?thesis
        by (simp add: townlands_lookup_ok first_hit_def while_loop_nonempty_frame)
    qed
  qed
qed

lemma getitem_result_columns:
  "has_result_columns df \<Longrightarrow>
   getitem_columns (df\<lparr>rows := rs\<rparr>) result_columns = Inr (result_frame rs)"
  by (simp add: getitem_columns_def has_result_columns_def result_frame_def has_column_def
      result_columns_def)

lemma extract_search:
  assumes T: "has_result_columns T" and C: "has_result_columns C" and ts: "ts \<noteq> []"
  shows "extract_gps_coordinates T C ts =
       (if first_hit T ts < length ts - 1
        then (Inr (result_frame (places_of T (last ts) (ts ! first_hit T ts))),
              drop (Suc (first_hit T ts)) ts)
        else (Inr (result_frame (counties_of C (last ts))), []))"
proof -
  have "df_empty new_DataFrame" by (simp add: df_empty_def new_DataFrame_def)
  from while_loop_search [OF T C ts this] T C show ?thesis
    by (simp add: extract_gps_coordinates_def getitem_result_columns)
qed

lemma first_hit_least:
  assumes "i < length ts - 1" and "places_of T (last ts) (ts ! i) \<noteq> []"
    and "\<forall>j<i. places_of T (last ts) (ts ! j) = []"
  shows "first_hit T ts = i"
proof -
  let ?P = "\<lambda>name. places_of T (last ts) name = []"
  have "takeWhile ?P (butlast ts) = take i (butlast ts)"
  proof (rule takeWhile_eq_take_P_nth)
    fix j assume "j < i" "j < length (butlast ts)"
    with assms(3) show "?P (butlast ts ! j)" by (simp add: nth_butlast)
  next
    assume "i < length (butlast ts)"
    with assms(2) show "\<not> ?P (butlast ts ! i)" by (simp add: nth_butlast)
  qed
  with assms(1) show ?thesis by (simp add: first_hit_def)
qed

lemma first_hit_none:
  assumes "\<forall>i<length ts - 1. places_of T (last ts) (ts ! i) = []"
  shows "first_hit T ts = length ts - 1"
proof -
  let ?P = "\<lambda>name. places_of T (last ts) name = []"
  have "\<forall>x\<in>set (butlast ts). ?P x"
  proof
    fix x assume "x \<in> set (butlast ts)"
    then obtain i where "i < length (butlast ts)" "butlast ts ! i = x"
      by (auto simp: in_set_conv_nth)
    with assms show "?P x" by (auto simp: nth_butlast)
  qed
  then have eq: "takeWhile ?P (butlast ts) = butlast ts" by (simp add: takeWhile_eq_all_conv)
  show ?thesis unfolding first_hit_def eq by simp
qed

lemma first_hit_le: "first_hit T ts \<le> length ts - 1"
  using length_takeWhile_le [of _ "butlast ts"] by (simp add: first_hit_def)

text \<open>
  C1: for a token list \<open>ts\<close> of at least two tokens, with both tables carrying the four
  result columns, the matcher returns the Places rows whose county is the last token and
  whose name is the token at the smallest position \<open>i\<close> before the last for which such
  rows exist; when no position before the last has such rows it returns the Counties rows
  whose county is the last token (possibly none). The county is the last token of the
  list as it was passed, at every step.
\<close>

theorem match_progressive:
  assumes "2 \<le> length ts" and "has_result_columns TOWNLANDS_DF"
    and "has_result_columns COUNTIES_DF"
  shows "(\<forall>i. i < length ts - 1
             \<and> places_of TOWNLANDS_DF (last ts) (ts ! i) \<noteq> []
             \<and> (\<forall>j<i. places_of TOWNLANDS_DF (last ts) (ts ! j) = [])
           \<longrightarrow> fst (extract_gps_coordinates TOWNLANDS_DF COUNTIES_DF ts)
                = Inr (result_frame (places_of TOWNLANDS_DF (last ts) (ts ! i))))
       \<and> ((\<forall>i<length ts - 1. places_of TOWNLANDS_DF (last ts) (ts ! i) = [])
           \<longrightarrow> fst (extract_gps_coordinates TOWNLANDS_DF COUNTIES_DF ts)
                = Inr (result_frame (counties_of COUNTIES_DF (last ts))))"
proof -
  from assms(1) have ne: "ts \<noteq> []" by auto
  note run = extract_search [OF assms(2) assms(3) ne]
  show ?thesis
  proof (intro conjI allI impI)
    fix i
    assume h: "i < length ts - 1
             \<and> places_of TOWNLANDS_DF (last ts) (ts ! i) \<noteq> []
             \<and> (\<forall>j<i. places_of TOWNLANDS_DF (last ts) (ts ! j) = [])"
    then have "first_hit TOWNLANDS_DF ts = i" by (simp add: first_hit_least)
    with h run
    show "fst (extract_gps_coordinates TOWNLANDS_DF COUNTIES_DF ts)
            = Inr (result_frame (places_of TOWNLANDS_DF (last ts) (ts ! i)))"
      by simp
  next
    assume "\<forall>i<length ts - 1. places_of TOWNLANDS_DF (last ts) (ts ! i) = []"
    then have "first_hit TOWNLANDS_DF ts = length ts - 1" by (rule first_hit_none)
    with run
    show "fst (extract_gps_coordinates TOWNLANDS_DF COUNTIES_DF ts)
            = Inr (result_frame (counties_of COUNTIES_DF (last ts)))"
      by simp
  qed
qed

text \<open>The example tables carry the four columns.\<close>

lemma example_columns:
  "has_result_columns example_townlands" "has_result_columns example_counties"
  by (simp_all add: has_result_columns_iff has_column_def example_townlands_def
      example_counties_def)

theorem match_progressive_witness:
  "2 \<le> length [''BENNEKERRY'', ''JOHNSTOWN'', ''CO'', ''CARLOW'']
   \<and> has_result_columns example_townlands \<and> has_result_columns example_counties
   \<and> places_of example_townlands ''CARLOW'' ''BENNEKERRY'' = []
   \<and> fst (extract_gps_coordinates example_townlands example_counties
            [''BENNEKERRY'', ''JOHNSTOWN'', ''CO'', ''CARLOW''])
       = Inr (result_frame
           [\<lparr>County = ''CARLOW'', English_Name = ''JOHNSTOWN'', Y = ''52.82'', X = ''-6.86''\<rparr>])
   \<and> fst (extract_gps_coordinates example_townlands example_counties
            [''BENNEKERRY'', ''CO'', ''CARLOW''])
       = Inr (result_frame
           [\<lparr>County = ''CARLOW'', English_Name = ''CARLOW'', Y = ''52.69'', X = ''-6.83''\<rparr>])"
proof -
  have len: "2 \<le> length [''BENNEKERRY'', ''JOHNSTOWN'', ''CO'', ''CARLOW'']"
    and len': "2 \<le> length [''BENNEKERRY'', ''CO'', ''CARLOW'']" by simp_all
  have p0: "places_of example_townlands ''CARLOW'' ''BENNEKERRY'' = []"
    and p1: "places_of example_townlands ''CARLOW'' ''JOHNSTOWN''
       = [\<lparr>County = ''CARLOW'', English_Name = ''JOHNSTOWN'', Y = ''52.82'', X = ''-6.86''\<rparr>]"
    and p2: "places_of example_townlands ''CARLOW'' ''CO'' = []"
    and c: "counties_of example_counties ''CARLOW''
       = [\<lparr>County = ''CARLOW'', English_Name = ''CARLOW'', Y = ''52.69'', X = ''-6.83''\<rparr>]"
    by (simp_all add: places_of_def counties_of_def example_townlands_def example_counties_def)
  from match_progressive [OF len example_columns, THEN conjunct1, rule_format, of 1] p0 p1
  have hit: "fst (extract_gps_coordinates example_townlands example_counties
            [''BENNEKERRY'', ''JOHNSTOWN'', ''CO'', ''CARLOW''])
       = Inr (result_frame
           [\<lparr>County = ''CARLOW'', English_Name = ''JOHNSTOWN'', Y = ''52.82'', X = ''-6.86''\<rparr>])"
    by simp
  from match_progressive [OF len' example_columns, THEN conjunct2] p0 p2 c
  have miss: "fst (extract_gps_coordinates example_townlands example_counties
            [''BENNEKERRY'', ''CO'', ''CARLOW''])
       = Inr (result_frame
           [\<lparr>County = ''CARLOW'', English_Name = ''CARLOW'', Y = ''52.69'', X = ''-6.83''\<rparr>])"
    by (simp add: less_Suc_eq)
  from len example_columns p0 hit miss show ?thesis by simp
qed

text \<open>
  C3: for a list of one token \<open>t\<close>, the matcher returns exactly the Counties rows whose
  county is \<open>t\<close>, in the four result columns, and leaves the list empty. The Places
  lookup with county and name both \<open>t\<close> is made first and its result is overwritten, so
  no Places row is returned even when such a row exists (the witness has one).
\<close>
theorem match_single_county:
  assumes "has_result_columns TOWNLANDS_DF" and "has_result_columns COUNTIES_DF"
  shows "extract_gps_coordinates TOWNLANDS_DF COUNTIES_DF [t]
           = (Inr (result_frame (counties_of COUNTIES_DF t)), [])"
  using extract_search [OF assms, of "[t]"] by (simp add: first_hit_def)

theorem match_single_county_witness:
  "has_result_columns example_townlands \<and> has_result_columns example_counties
   \<and> places_of example_townlands ''CARLOW'' ''CARLOW'' \<noteq> []
   \<and> counties_of example_counties ''CARLOW'' \<noteq> []
   \<and> extract_gps_coordinates example_townlands example_counties [''CARLOW'']
       = (Inr (result_frame
            [\<lparr>County = ''CARLOW'', English_Name = ''CARLOW'', Y = ''52.69'', X = ''-6.83''\<rparr>]), [])"
proof -
  have p: "places_of example_townlands ''CARLOW'' ''CARLOW'' \<noteq> []"
    by (simp add: places_of_def example_townlands_def)
  have c: "counties_of example_counties ''CARLOW''
       = [\<lparr>County = ''CARLOW'', English_Name = ''CARLOW'', Y = ''52.69'', X = ''-6.83''\<rparr>]"
    by (simp add: counties_of_def example_counties_def)
  from match_single_county [OF example_columns, of "''CARLOW''"] p c example_columns
  show ?thesis by simp
qed

text \<open>
  C4: on the empty token list the loop body never runs, and the final projection of the
  four columns out of the frame made by \<^verbatim>\<open>pandas.DataFrame()\<close>, which has no columns,
  raises KeyError: the matcher does not return an empty result.
\<close>
theorem match_empty_raises:
  "extract_gps_coordinates TOWNLANDS_DF COUNTIES_DF [] = (Inl KeyError, [])"
  by (simp add: extract_gps_coordinates_def new_DataFrame_def getitem_columns_def
      result_columns_def has_column_def)

text \<open>
  C2, as stated, fails: after a call on JOHNSTOWN, CARLOW that returns the Johnstown row,
  the caller's list holds CARLOW only.
\<close>
theorem match_input_counterexample:
  "extract_gps_coordinates example_townlands example_counties [''JOHNSTOWN'', ''CARLOW'']
     = (Inr (result_frame
          [\<lparr>County = ''CARLOW'', English_Name = ''JOHNSTOWN'', Y = ''52.82'', X = ''-6.86''\<rparr>]),
        [''CARLOW''])
   \<and> [''CARLOW''] \<noteq> [''JOHNSTOWN'', ''CARLOW'']"
proof -
  have h: "first_hit example_townlands [''JOHNSTOWN'', ''CARLOW''] = 0"
    by (simp add: first_hit_def places_of_def example_townlands_def)
  have p: "places_of example_townlands ''CARLOW'' ''JOHNSTOWN''
       = [\<lparr>County = ''CARLOW'', English_Name = ''JOHNSTOWN'', Y = ''52.82'', X = ''-6.86''\<rparr>]"
    by (simp add: places_of_def example_townlands_def)
  show ?thesis
    by (simp add: extract_search [OF example_columns] h p)
qed

text \<open>
  C2, amended: when both tables carry the four result columns and the list is not empty,
  the call pops the caller's list: on return it holds what followed the token that
  produced the result, \<open>drop (first_hit + 1) ts\<close>, which is shorter than \<open>ts\<close>. No copy
  of the list is made.
\<close>

theorem match_pops_input:
  assumes "has_result_columns TOWNLANDS_DF" and "has_result_columns COUNTIES_DF"
    and "ts \<noteq> []"
  shows "snd (extract_gps_coordinates TOWNLANDS_DF COUNTIES_DF ts)
           = drop (Suc (first_hit TOWNLANDS_DF ts)) ts
         \<and> length (snd (extract_gps_coordinates TOWNLANDS_DF COUNTIES_DF ts)) < length ts"
proof -
  have "first_hit TOWNLANDS_DF ts \<le> length ts - 1" by (rule first_hit_le)
  with assms(3) extract_search [OF assms] show ?thesis
    by (auto simp: Suc_le_eq)
qed

theorem match_pops_input_witness:
  "has_result_columns example_townlands \<and> has_result_columns example_counties
   \<and> [''BENNEKERRY'', ''JOHNSTOWN'', ''CO'', ''CARLOW''] \<noteq> []
   \<and> snd (extract_gps_coordinates example_townlands example_counties
        [''BENNEKERRY'', ''JOHNSTOWN'', ''CO'', ''CARLOW'']) = [''CO'', ''CARLOW'']"
proof -
  have ne: "[''BENNEKERRY'', ''JOHNSTOWN'', ''CO'', ''CARLOW''] \<noteq> []" by simp
  have "first_hit example_townlands [''BENNEKERRY'', ''JOHNSTOWN'', ''CO'', ''CARLOW''] = 1"
    by (simp add: first_hit_def places_of_def example_townlands_def)
  with match_pops_input [OF example_columns ne] example_columns show ?thesis by simp
qed

text \<open>
  C7, as stated, fails when the caller passes the same list again: the second call gets
  the list as the first call left it. The first call on JOHNSTOWN, CARLOW returns the
  Johnstown row and leaves CARLOW, on which the second call returns the county row.
\<close>

theorem match_twice_counterexample:
  "fst (extract_gps_coordinates example_townlands example_counties
          (snd (extract_gps_coordinates example_townlands example_counties
                  [''JOHNSTOWN'', ''CARLOW''])))
   \<noteq> fst (extract_gps_coordinates example_townlands example_counties
            [''JOHNSTOWN'', ''CARLOW''])"
proof -
  have h: "first_hit example_townlands [''JOHNSTOWN'', ''CARLOW''] = 0"
    by (simp add: first_hit_def places_of_def example_townlands_def)
  have p: "places_of example_townlands ''CARLOW'' ''JOHNSTOWN''
       = [\<lparr>County = ''CARLOW'', English_Name = ''JOHNSTOWN'', Y = ''52.82'', X = ''-6.86''\<rparr>]"
    by (simp add: places_of_def example_townlands_def)
  have c: "counties_of example_counties ''CARLOW''
       = [\<lparr>County = ''CARLOW'', English_Name = ''CARLOW'', Y = ''52.69'', X = ''-6.83''\<rparr>]"
    by (simp add: counties_of_def example_counties_def)
  have first: "extract_gps_coordinates example_townlands example_counties
        [''JOHNSTOWN'', ''CARLOW'']
      = (Inr (result_frame
          [\<lparr>County = ''CARLOW'', English_Name = ''JOHNSTOWN'', Y = ''52.82'', X = ''-6.86''\<rparr>]),
         [''CARLOW''])"
    by (simp add: extract_search [OF example_columns] h p)
  have second: "extract_gps_coordinates example_townlands example_counties [''CARLOW'']
      = (Inr (result_frame
          [\<lparr>County = ''CARLOW'', English_Name = ''CARLOW'', Y = ''52.69'', X = ''-6.83''\<rparr>]),
         [])"
    by (simp add: extract_search [OF example_columns] first_hit_def c)
  show ?thesis
    by (simp add: first second result_frame_def)
qed

text \<open>
  A place-level result is returned at position \<open>first_hit\<close>, and the tokens up to and
  including that position are popped.
\<close>

lemma first_hit_is_hit:
  assumes "first_hit T ts < length ts - 1"
  shows "places_of T (last ts) (ts ! first_hit T ts) \<noteq> []"
proof -
  let ?P = "\<lambda>name. places_of T (last ts) name = []"
  from assms have "first_hit T ts < length (butlast ts)" by simp
  then have "\<not> ?P (butlast ts ! first_hit T ts)"
    unfolding first_hit_def by (rule nth_length_takeWhile)
  with assms show ?thesis by (simp add: nth_butlast)
qed

lemma extract_after_hit:
  assumes T: "has_result_columns T" and C: "has_result_columns C"
    and hit: "first_hit T ts < length ts - 1"
  shows "extract_gps_coordinates T C ts
           = (Inr (result_frame (places_of T (last ts) (ts ! first_hit T ts))),
              drop (Suc (first_hit T ts)) ts)"
proof -
  from hit have "ts \<noteq> []" by auto
  from extract_search [OF T C this] hit show ?thesis by simp
qed

text \<open>
  C7, amended: with both tables carrying the four result columns, when the first call
  returned a place-level match (at position \<open>i = first_hit\<close>), a second call on the same
  list does not repeat the search but resumes it behind position \<open>i\<close>, with the same
  last token as county: it returns the Places rows of the smallest position \<open>j\<close> with
  \<open>i < j < n - 1\<close> that has any, and the Counties rows of the last token when there is
  none. The two results are identical only where these rows happen to be those of the
  first call.
\<close>

theorem match_twice_resumes:
  assumes T: "has_result_columns TOWNLANDS_DF" and C: "has_result_columns COUNTIES_DF"
    and hit: "first_hit TOWNLANDS_DF ts < length ts - 1"
  shows "fst (extract_gps_coordinates TOWNLANDS_DF COUNTIES_DF ts)
           = Inr (result_frame
               (places_of TOWNLANDS_DF (last ts) (ts ! first_hit TOWNLANDS_DF ts)))
       \<and> (\<forall>j. first_hit TOWNLANDS_DF ts < j \<and> j < length ts - 1
              \<and> places_of TOWNLANDS_DF (last ts) (ts ! j) \<noteq> []
              \<and> (\<forall>k. first_hit TOWNLANDS_DF ts < k \<and> k < j
                    \<longrightarrow> places_of TOWNLANDS_DF (last ts) (ts ! k) = [])
            \<longrightarrow> fst (extract_gps_coordinates TOWNLANDS_DF COUNTIES_DF
                       (snd (extract_gps_coordinates TOWNLANDS_DF COUNTIES_DF ts)))
                 = Inr (result_frame (places_of TOWNLANDS_DF (last ts) (ts ! j))))
       \<and> ((\<forall>j. first_hit TOWNLANDS_DF ts < j \<and> j < length ts - 1
               \<longrightarrow> places_of TOWNLANDS_DF (last ts) (ts ! j) = [])
            \<longrightarrow> fst (extract_gps_coordinates TOWNLANDS_DF COUNTIES_DF
                       (snd (extract_gps_coordinates TOWNLANDS_DF COUNTIES_DF ts)))
                 = Inr (result_frame (counties_of COUNTIES_DF (last ts))))"
proof -
  let ?i = "first_hit TOWNLANDS_DF ts"
  let ?rest = "drop (Suc ?i) ts"
  note first = extract_after_hit [OF T C hit]
  from hit have lt: "Suc ?i < length ts" by simp
  then have ne: "?rest \<noteq> []" by simp
  from lt have last: "last ?rest = last ts" by (rule last_drop)
  have len: "length ?rest - 1 = length ts - 1 - Suc ?i" by simp
  have nth: "?rest ! k = ts ! (Suc ?i + k)" if "k < length ?rest - 1" for k
    using that by simp
  note second = extract_search [OF T C ne, unfolded last]
  show ?thesis
  proof (intro conjI allI impI)
    show "fst (extract_gps_coordinates TOWNLANDS_DF COUNTIES_DF ts)
           = Inr (result_frame (places_of TOWNLANDS_DF (last ts) (ts ! ?i)))"
      using first by simp
  next
    fix j
    assume h: "?i < j \<and> j < length ts - 1
              \<and> places_of TOWNLANDS_DF (last ts) (ts ! j) \<noteq> []
              \<and> (\<forall>k. ?i < k \<and> k < j
                    \<longrightarrow> places_of TOWNLANDS_DF (last ts) (ts ! k) = [])"
    define k where "k = j - Suc ?i"
    from h have j: "j = Suc ?i + k" by (simp add: k_def)
    from h have jn: "j < length ts - 1" by simp
    with j have k: "k < length ?rest - 1" by (simp; arith)
    have "first_hit TOWNLANDS_DF ?rest = k"
    proof (rule first_hit_least)
      show "k < length ?rest - 1" by (rule k)
      show "places_of TOWNLANDS_DF (last ?rest) (?rest ! k) \<noteq> []"
        using h j k last by (simp add: nth)
      show "\<forall>k'<k. places_of TOWNLANDS_DF (last ?rest) (?rest ! k') = []"
      proof (intro allI impI)
        fix k' assume "k' < k"
        with k have "?rest ! k' = ts ! (Suc ?i + k')" by (simp add: nth)
        moreover from \<open>k' < k\<close> j h
        have "places_of TOWNLANDS_DF (last ts) (ts ! (Suc ?i + k')) = []" by simp
        ultimately show "places_of TOWNLANDS_DF (last ?rest) (?rest ! k') = []"
          using last by simp
      qed
    qed
    with second k first j
    show "fst (extract_gps_coordinates TOWNLANDS_DF COUNTIES_DF
                 (snd (extract_gps_coordinates TOWNLANDS_DF COUNTIES_DF ts)))
            = Inr (result_frame (places_of TOWNLANDS_DF (last ts) (ts ! j)))"
      by (simp add: nth)
  next
    assume h: "\<forall>j. ?i < j \<and> j < length ts - 1
               \<longrightarrow> places_of TOWNLANDS_DF (last ts) (ts ! j) = []"
    have "first_hit TOWNLANDS_DF ?rest = length ?rest - 1"
    proof (rule first_hit_none, intro allI impI)
      fix k assume k: "k < length ?rest - 1"
      then have "?rest ! k = ts ! (Suc ?i + k)" by (simp add: nth)
      moreover from k h have "places_of TOWNLANDS_DF (last ts) (ts ! (Suc ?i + k)) = []"
        by simp
      ultimately show "places_of TOWNLANDS_DF (last ?rest) (?rest ! k) = []"
        using last by simp
    qed
    with second first
    show "fst (extract_gps_coordinates TOWNLANDS_DF COUNTIES_DF
                 (snd (extract_gps_coordinates TOWNLANDS_DF COUNTIES_DF ts)))
            = Inr (result_frame (counties_of COUNTIES_DF (last ts)))"
      by simp
  qed
qed

theorem match_twice_resumes_witness:
  "has_result_columns example_townlands \<and> has_result_columns example_counties
   \<and> first_hit example_townlands [''JOHNSTOWN'', ''BENNEKERRY'', ''JOHNSTOWN'', ''CARLOW'']
       < length [''JOHNSTOWN'', ''BENNEKERRY'', ''JOHNSTOWN'', ''CARLOW''] - 1
   \<and> snd (extract_gps_coordinates example_townlands example_counties
        [''JOHNSTOWN'', ''BENNEKERRY'', ''JOHNSTOWN'', ''CARLOW''])
       = [''BENNEKERRY'', ''JOHNSTOWN'', ''CARLOW'']
   \<and> fst (extract_gps_coordinates example_townlands example_counties
        (snd (extract_gps_coordinates example_townlands example_counties
           [''JOHNSTOWN'', ''BENNEKERRY'', ''JOHNSTOWN'', ''CARLOW''])))
       = Inr (result_frame
           [\<lparr>County = ''CARLOW'', English_Name = ''JOHNSTOWN'', Y = ''52.82'', X = ''-6.86''\<rparr>])"
proof -
  let ?ts = "[''JOHNSTOWN'', ''BENNEKERRY'', ''JOHNSTOWN'', ''CARLOW'']"
  have h: "first_hit example_townlands ?ts = 0"
    by (simp add: first_hit_def places_of_def example_townlands_def)
  then have hit: "first_hit example_townlands ?ts < length ?ts - 1" by simp
  have p: "places_of example_townlands ''CARLOW'' ''JOHNSTOWN''
       = [\<lparr>County = ''CARLOW'', English_Name = ''JOHNSTOWN'', Y = ''52.82'', X = ''-6.86''\<rparr>]"
    and q: "places_of example_townlands ''CARLOW'' ''BENNEKERRY'' = []"
    by (simp_all add: places_of_def example_townlands_def)
  have left: "snd (extract_gps_coordinates example_townlands example_counties ?ts)
       = [''BENNEKERRY'', ''JOHNSTOWN'', ''CARLOW'']"
    by (simp add: extract_after_hit [OF example_columns hit] h)
  from match_twice_resumes [OF example_columns hit, THEN conjunct2, THEN conjunct1,
      rule_format, of 2] h p q
  have "fst (extract_gps_coordinates example_townlands example_counties
        (snd (extract_gps_coordinates example_townlands example_counties ?ts)))
       = Inr (result_frame
           [\<lparr>County = ''CARLOW'', English_Name = ''JOHNSTOWN'', Y = ''52.82'', X = ''-6.86''\<rparr>])"
    by (simp add: less_Suc_eq)
  with example_columns hit left show ?thesis by simp
qed

text \<open>
  C9: on the empty token list the matcher reaches neither exit state. The loop body never
  runs, and the call ends in KeyError instead of returning the empty frame that the
  no-match path returns for a list that is not empty.
\<close>

theorem match_exit_states_fail_on_empty:
  "fst (extract_gps_coordinates example_townlands example_counties []) = Inl KeyError"
  by (simp add: extract_gps_coordinates_def new_DataFrame_def getitem_columns_def
      result_columns_def has_column_def)

text \<open>
  On every token list that is not empty, with both tables carrying the four result
  columns, the matcher does reach one of the two exit states: it returns after \<open>k\<close>
  iterations (\<open>1 \<le> k \<le> length ts\<close>), each of which pops one token, with a frame that has
  rows, or with a frame without rows after all tokens were popped and the county lookup
  on the last token found nothing.
\<close>

lemma match_exit_states_nonempty:
  assumes "has_result_columns TOWNLANDS_DF" and "has_result_columns COUNTIES_DF"
    and "ts \<noteq> []"
  shows "\<exists>df k. 0 < k \<and> k \<le> length ts
           \<and> extract_gps_coordinates TOWNLANDS_DF COUNTIES_DF ts = (Inr df, drop k ts)
           \<and> (rows df \<noteq> []
              \<or> (rows df = [] \<and> k = length ts \<and> counties_of COUNTIES_DF (last ts) = []))"
proof (cases "first_hit TOWNLANDS_DF ts < length ts - 1")
  case True
  let ?i = "first_hit TOWNLANDS_DF ts"
  let ?P = "\<lambda>name. places_of TOWNLANDS_DF (last ts) name = []"
  from True have "?i < length (butlast ts)" by simp
  then have "\<not> ?P (butlast ts ! ?i)"
    unfolding first_hit_def by (rule nth_length_takeWhile)
  with True have hit: "places_of TOWNLANDS_DF (last ts) (ts ! ?i) \<noteq> []"
    by (simp add: nth_butlast)
  from True extract_search [OF assms] hit show ?thesis
    by (intro exI [of _ "result_frame (places_of TOWNLANDS_DF (last ts) (ts ! ?i))"]
        exI [of _ "Suc ?i"]) (simp add: result_frame_def)
next
  case False
  with extract_search [OF assms] assms(3) show ?thesis
    by (intro exI [of _ "result_frame (counties_of COUNTIES_DF (last ts))"]
        exI [of _ "length ts"]) (auto simp: result_frame_def)
qed

text \<open>
  Where a returned frame comes from: the frame the loop started with, a selection of
  Places rows, or a selection of Counties rows.
\<close>
lemma while_loop_source:
  "while_loop T C m ts = (Inr df, rest) \<Longrightarrow>
     df = m \<or> (\<exists>c n. rows df = places_of T c n) \<or> (\<exists>c. rows df = counties_of C c)"
proof (induction ts arbitrary: m)
  case Nil
  then show ?case by simp
next
  case (Cons t ts)
  show ?case
  proof (cases "df_empty m")
    case False
    with Cons.prems show ?thesis by simp
  next
    case True
    with Cons.prems obtain m2 where
      m2: "m2 = loc T (\<lambda>r. County r = last (t # ts) \<and> English_Name r = t)
           \<or> m2 = loc C (\<lambda>r. County r = t)"
      and run: "while_loop T C m2 ts = (Inr df, rest)"
      by (auto simp: townlands_lookup_def counties_lookup_def
          split: if_splits sum.splits)
    have pl: "rows (loc T (\<lambda>r. County r = last (t # ts) \<and> English_Name r = t))
        = places_of T (last (t # ts)) t"
      by (simp add: loc_def places_of_def)
    have co: "rows (loc C (\<lambda>r. County r = t)) = counties_of C t"
      by (simp add: loc_def counties_of_def)
    from Cons.IH [OF run] m2 pl co show ?thesis
      by blast
  qed
qed

text \<open>
  C10: a returned frame that has rows holds either exactly the Places rows of one county
  and name, or exactly the Counties rows of one county; such a list is a filter of the
  rows of one table, so rows of the two tables are never mixed.
\<close>

theorem match_single_table:
  assumes "fst (extract_gps_coordinates TOWNLANDS_DF COUNTIES_DF ts) = Inr df"
    and "rows df \<noteq> []"
  shows "(\<exists>county name. rows df = places_of TOWNLANDS_DF county name)
       \<or> (\<exists>county. rows df = counties_of COUNTIES_DF county)"
proof -
  from assms(1) obtain m rest where
    run: "while_loop TOWNLANDS_DF COUNTIES_DF new_DataFrame ts = (Inr m, rest)"
    and proj: "getitem_columns m result_columns = Inr df"
    by (auto simp: extract_gps_coordinates_def split: prod.splits sum.splits)
  from proj have rows: "rows df = rows m"
    by (auto simp: getitem_columns_def split: if_splits)
  from while_loop_source [OF run] rows assms(2) show ?thesis
    by (auto simp: new_DataFrame_def)
qed

theorem match_single_table_witness:
  "fst (extract_gps_coordinates example_townlands example_counties
          [''BENNEKERRY'', ''JOHNSTOWN'', ''CO'', ''CARLOW''])
     = Inr (result_frame
         [\<lparr>County = ''CARLOW'', English_Name = ''JOHNSTOWN'', Y = ''52.82'', X = ''-6.86''\<rparr>])
   \<and> ((\<exists>county name.
          [\<lparr>County = ''CARLOW'', English_Name = ''JOHNSTOWN'', Y = ''52.82'', X = ''-6.86''\<rparr>]
            = places_of example_townlands county name)
       \<or> (\<exists>county.
          [\<lparr>County = ''CARLOW'', English_Name = ''JOHNSTOWN'', Y = ''52.82'', X = ''-6.86''\<rparr>]
            = counties_of example_counties county))"
proof -
  have h: "first_hit example_townlands [''BENNEKERRY'', ''JOHNSTOWN'', ''CO'', ''CARLOW''] = 1"
    by (simp add: first_hit_def places_of_def example_townlands_def)
  have p: "places_of example_townlands ''CARLOW'' ''JOHNSTOWN''
       = [\<lparr>County = ''CARLOW'', English_Name = ''JOHNSTOWN'', Y = ''52.82'', X = ''-6.86''\<rparr>]"
    by (simp add: places_of_def example_townlands_def)
  have run: "fst (extract_gps_coordinates example_townlands example_counties
          [''BENNEKERRY'', ''JOHNSTOWN'', ''CO'', ''CARLOW''])
     = Inr (result_frame
         [\<lparr>County = ''CARLOW'', English_Name = ''JOHNSTOWN'', Y = ''52.82'', X = ''-6.86''\<rparr>])"
    by (simp add: extract_search [OF example_columns] h p)
  have ne: "rows (result_frame
         [\<lparr>County = ''CARLOW'', English_Name = ''JOHNSTOWN'', Y = ''52.82'', X = ''-6.86''\<rparr>]) \<noteq> []"
    by (simp add: result_frame_def)
  from match_single_table [OF run ne] run show ?thesis
    by (simp add: result_frame_def)
qed

section \<open>The tokenizer\<close>

text \<open>
  The defining equation of the first loop is unfolded by hand, one iteration at a time.
\<close>

declare remove_empty_loop.simps [simp del]

lemma adjacent_empty_tl: "\<not> adjacent_empty (x # xs) \<Longrightarrow> \<not> adjacent_empty xs"
  by (cases xs) auto

lemma remove_empty_loop_end: "length xs \<le> i \<Longrightarrow> remove_empty_loop i xs = xs"
  by (subst remove_empty_loop.simps) simp

lemma remove_empty_loop_keep:
  "x \<noteq> [] \<Longrightarrow>
   remove_empty_loop (length p) (p @ x # r) = remove_empty_loop (Suc (length p)) (p @ x # r)"
  by (subst remove_empty_loop.simps) simp

lemma remove_empty_loop_drop:
  "[] \<notin> set p \<Longrightarrow>
   remove_empty_loop (length p) (p @ [] # r) = remove_empty_loop (Suc (length p)) (p @ r)"
  by (subst remove_empty_loop.simps) (simp add: remove1_append)

text \<open>
  With the iterator at position \<open>length p\<close>, no empty string before it and no two empty
  neighbours after it, the first loop removes every empty string: the segment after a
  removed one slides under the iterator unseen, and it is not empty.
\<close>

lemma remove_empty_loop_filter_gen:
  "[] \<notin> set p \<Longrightarrow> \<not> adjacent_empty r \<Longrightarrow>
   remove_empty_loop (length p) (p @ r) = p @ filter (\<lambda>w. w \<noteq> []) r"
proof (induction r arbitrary: p rule: length_induct)
  case (1 r)
  show ?case
  proof (cases r)
    case Nil
    then show ?thesis by (simp add: remove_empty_loop_end)
  next
    case (Cons x r')
    show ?thesis
    proof (cases "x = []")
      case False
      have len: "length r' < length r" using Cons by simp
      have p': "[] \<notin> set (p @ [x])" using False "1.prems"(1) by auto
      have r': "\<not> adjacent_empty r'" using "1.prems"(2) Cons by (auto dest: adjacent_empty_tl)
      from "1.IH" len p' r'
      have "remove_empty_loop (length (p @ [x])) ((p @ [x]) @ r')
              = (p @ [x]) @ filter (\<lambda>w. w \<noteq> []) r'"
        by blast
      with False Cons show ?thesis
        by (simp add: remove_empty_loop_keep)
    next
      case True
      show ?thesis
      proof (cases r')
        case Nil
        with True Cons "1.prems"(1) show ?thesis
          by (simp add: remove_empty_loop_drop remove_empty_loop_end)
      next
        case (Cons y r'')
        with True \<open>r = x # r'\<close> "1.prems"(2) have y: "y \<noteq> []" by auto
        have len: "length r'' < length r" using Cons \<open>r = x # r'\<close> by simp
        have p': "[] \<notin> set (p @ [y])" using y "1.prems"(1) by auto
        have r'': "\<not> adjacent_empty r''"
          using "1.prems"(2) Cons \<open>r = x # r'\<close> by (auto dest: adjacent_empty_tl)
        from "1.IH" len p' r''
        have "remove_empty_loop (length (p @ [y])) ((p @ [y]) @ r'')
                = (p @ [y]) @ filter (\<lambda>w. w \<noteq> []) r''"
          by blast
        with True y Cons \<open>r = x # r'\<close> "1.prems"(1) show ?thesis
          by (simp add: remove_empty_loop_drop)
      qed
    qed
  qed
qed

lemma remove_empty_loop_filter:
  "\<not> adjacent_empty xs \<Longrightarrow> remove_empty_loop 0 xs = filter (\<lambda>w. w \<noteq> []) xs"
  using remove_empty_loop_filter_gen [of "[]" xs] by simp

lemma strip_loop_map:
  "[] \<notin> set ws \<Longrightarrow> strip_loop ws = Inr (map clean_segment ws)"
  by (induction ws rule: strip_loop.induct) (auto simp: clean_segment_def)

text \<open>
  C6, as stated, fails twice: a segment that is one space is kept and becomes an empty
  token, and three commas in a row leave an empty segment behind, on which
  \<^verbatim>\<open>word[0]\<close> raises IndexError.
\<close>

theorem tokenize_counterexample:
  "address_handler ''Foo, ,Bar'' = Inr [''FOO'', '''', ''BAR'']
   \<and> address_handler ''Foo,,,Bar'' = Inl IndexError"
  by code_simp

text \<open>
  C6, amended: when no two neighbouring comma-separated segments of the input are both
  empty, \<^verbatim>\<open>address_handler\<close> returns normally and computes the pipeline
  \<open>tokenize\<close>: every segment that is the empty string is discarded and contributes no
  token, and every other segment is kept (a segment that is one space contributes one
  empty token). In particular the address Foo,,Bar gives FOO, BAR.
\<close>

theorem tokenize_without_adjacent_empty:
  assumes "\<not> adjacent_empty (split_sep CHR '','' raw)"
  shows "address_handler raw = Inr (tokenize raw)
       \<and> address_handler ''Foo,,Bar'' = Inr [''FOO'', ''BAR'']"
proof -
  have "[] \<notin> set (filter (\<lambda>w. w \<noteq> []) (split_sep CHR '','' raw))" by simp
  then have "strip_loop (filter (\<lambda>w. w \<noteq> []) (split_sep CHR '','' raw))
      = Inr (map clean_segment (filter (\<lambda>w. w \<noteq> []) (split_sep CHR '','' raw)))"
    by (rule strip_loop_map)
  with assms have "address_handler raw = Inr (tokenize raw)"
    by (simp add: address_handler_def remove_empty_loop_filter final_loop_def tokenize_def
        comp_def)
  moreover have "address_handler ''Foo,,Bar'' = Inr [''FOO'', ''BAR'']"
    by code_simp
  ultimately show ?thesis by simp
qed

theorem tokenize_without_adjacent_empty_witness:
  "\<not> adjacent_empty (split_sep CHR '','' ''a,, b c., ,d'')
   \<and> address_handler ''a,, b c., ,d'' = Inr [''A'', ''B'', ''C'', '''', ''D'']"
proof -
  have h: "\<not> adjacent_empty (split_sep CHR '','' ''a,, b c., ,d'')" by code_simp
  have t: "tokenize ''a,, b c., ,d'' = [''A'', ''B'', ''C'', '''', ''D'']" by code_simp
  from tokenize_without_adjacent_empty [OF h] h t show ?thesis by simp
qed

lemma split_sep_nonempty: "split_sep sep s \<noteq> []"
  by (induction s) (auto split: list.splits)

lemma split_sep_chars:
  "w \<in> set (split_sep sep s) \<Longrightarrow> set w \<subseteq> set s - {sep}"
proof (induction s arbitrary: w)
  case Nil
  then show ?case by simp
next
  case (Cons c cs)
  show ?case
  proof (cases "c = sep")
    case True
    with Cons show ?thesis by auto
  next
    case False
    obtain v vs where split: "split_sep sep cs = v # vs"
      using split_sep_nonempty [of sep cs] by (cases "split_sep sep cs") auto
    with False Cons.prems have "w = c # v \<or> w \<in> set vs" by simp
    then show ?thesis
    proof
      assume "w = c # v"
      moreover have "set v \<subseteq> set cs - {sep}" using Cons.IH [of v] split by simp
      ultimately show ?thesis using False by auto
    next
      assume "w \<in> set vs"
      then have "set w \<subseteq> set cs - {sep}" using Cons.IH [of w] split by simp
      then show ?thesis by auto
    qed
  qed
qed

lemma remove_empty_loop_subset: "set (remove_empty_loop i xs) \<subseteq> set xs"
proof (induction i xs rule: remove_empty_loop.induct)
  case (1 i xs)
  show ?case
  proof (cases "i < length xs")
    case False
    then show ?thesis by (simp add: remove_empty_loop_end)
  next
    case True
    show ?thesis
    proof (cases "xs ! i = []")
      case empty: True
      from "1.IH"(1) [OF True empty] set_remove1_subset [of "[]" xs]
      have "set (remove_empty_loop (Suc i) (remove1 [] xs)) \<subseteq> set xs" by blast
      with True empty show ?thesis by (subst remove_empty_loop.simps) simp
    next
      case False
      from "1.IH"(2) [OF True False] True False show ?thesis
        by (subst remove_empty_loop.simps) simp
    qed
  qed
qed

lemma strip_loop_spaces:
  "strip_loop ws = Inr r \<Longrightarrow> \<forall>w\<in>set ws. set w \<subseteq> {CHR '' '', CHR ''.''} \<Longrightarrow>
   \<forall>v\<in>set r. set v \<subseteq> {CHR '' ''}"
proof (induction ws arbitrary: r rule: strip_loop.induct)
  case 1
  then show ?case by simp
next
  case (2 ws)
  then show ?case by simp
next
  case (3 c cs ws)
  from "3.prems"(1) obtain r' where r': "strip_loop ws = Inr r'"
    and r: "r = remove_dots (if c = CHR '' '' then cs else c # cs) # r'"
    by (auto split: sum.splits)
  from "3.IH" [OF r'] "3.prems"(2) have tl: "\<forall>v\<in>set r'. set v \<subseteq> {CHR '' ''}" by simp
  from "3.prems"(2) have "set (c # cs) \<subseteq> {CHR '' '', CHR ''.''}" by simp
  then have "set (remove_dots (if c = CHR '' '' then cs else c # cs)) \<subseteq> {CHR '' ''}"
    by (auto simp: remove_dots_def)
  with tl r show ?case by simp
qed

lemma isspace_space: "isspace CHR '' ''"
  by (simp add: isspace_def)

lemma split_ws_spaces: "set v \<subseteq> {CHR '' ''} \<Longrightarrow> split_ws [] v = []"
  by (induction v) (auto simp: isspace_space)

lemma word_tokens_spaces:
  assumes "set v \<subseteq> {CHR '' ''}" and "t \<in> set (word_tokens v)"
  shows "t = []"
proof (cases "CHR '' '' \<in> set v")
  case True
  with assms show ?thesis by (simp add: word_tokens_def split_whitespace_def split_ws_spaces)
next
  case False
  with assms(1) have "v = []" by (cases v) auto
  with assms(2) show ?thesis by (simp add: word_tokens_def upper_def)
qed

lemma delimiter_tokens_empty:
  assumes "only_delimiters address" and "address_handler address = Inr ts"
    and "t \<in> set ts"
  shows "t = []"
proof -
  let ?segs = "remove_empty_loop 0 (split_sep CHR '','' address)"
  from assms(2) obtain ws where ws: "strip_loop ?segs = Inr ws" and ts: "ts = final_loop ws"
    by (auto simp: address_handler_def split: sum.splits)
  have "\<forall>w\<in>set ?segs. set w \<subseteq> {CHR '' '', CHR ''.''}"
  proof
    fix w assume "w \<in> set ?segs"
    then have "w \<in> set (split_sep CHR '','' address)"
      using remove_empty_loop_subset by blast
    then have "set w \<subseteq> set address - {CHR '',''}" by (rule split_sep_chars)
    with assms(1) show "set w \<subseteq> {CHR '' '', CHR ''.''}"
      by (auto simp: only_delimiters_def list_all_iff)
  qed
  with ws have "\<forall>v\<in>set ws. set v \<subseteq> {CHR '' ''}" by (rule strip_loop_spaces)
  with assms(3) ts show ?thesis
    by (auto simp: final_loop_def dest: word_tokens_spaces)
qed

lemma match_empty_tokens:
  assumes T: "has_result_columns T" and C: "has_result_columns C"
    and ne: "ts \<noteq> []" and empty: "\<forall>t\<in>set ts. t = []"
    and p: "places_of T [] [] = []" and c: "counties_of C [] = []"
  shows "fst (extract_gps_coordinates T C ts) = Inr (result_frame [])"
proof -
  from ne empty have last: "last ts = []" by simp
  have "\<forall>i<length ts - 1. places_of T (last ts) (ts ! i) = []"
  proof (intro allI impI)
    fix i assume "i < length ts - 1"
    then have "ts ! i \<in> set ts" by simp
    with empty have "ts ! i = []" by blast
    with last p show "places_of T (last ts) (ts ! i) = []" by simp
  qed
  then have "first_hit T ts = length ts - 1" by (rule first_hit_none)
  with extract_search [OF T C ne] last c show ?thesis by simp
qed

text \<open>
  C5, as stated, fails: on a single comma the tokenizer raises IndexError; on a single
  space it returns one empty token, not the empty list; on the empty address it returns
  the empty list and the matcher then raises KeyError.
\<close>

theorem delimiters_only_counterexample:
  "only_delimiters '','' \<and> address_handler '','' = Inl IndexError
   \<and> only_delimiters '' '' \<and> address_handler '' '' = Inr ['''']
   \<and> only_delimiters '''' \<and> address_handler '''' = Inr []
   \<and> api_filter example_townlands example_counties '''' = Inl KeyError"
  by code_simp

text \<open>
  C5, amended: for an address of commas, spaces and periods only on which the tokenizer
  returns, every token is the empty string; and when there is at least one token, both
  tables carry the four result columns, no Places row has empty county and name and no
  Counties row has an empty county, the pipeline returns the frame without rows.
\<close>

theorem delimiters_only_degrade:
  assumes "only_delimiters address" and "address_handler address = Inr ts"
  shows "(\<forall>t\<in>set ts. t = [])
       \<and> (ts \<noteq> [] \<and> has_result_columns TOWNLANDS_DF \<and> has_result_columns COUNTIES_DF
            \<and> places_of TOWNLANDS_DF [] [] = [] \<and> counties_of COUNTIES_DF [] = []
          \<longrightarrow> api_filter TOWNLANDS_DF COUNTIES_DF address = Inr (result_frame []))"
proof -
  have empty: "\<forall>t\<in>set ts. t = []"
    using delimiter_tokens_empty [OF assms] by blast
  then show ?thesis
    using assms(2) by (auto simp: api_filter_def intro: match_empty_tokens)
qed

theorem delimiters_only_degrade_witness:
  "only_delimiters '' . ,.'' \<and> address_handler '' . ,.'' = Inr ['''']
   \<and> has_result_columns example_townlands \<and> has_result_columns example_counties
   \<and> places_of example_townlands [] [] = [] \<and> counties_of example_counties [] = []
   \<and> api_filter example_townlands example_counties '' . ,.'' = Inr (result_frame [])"
proof -
  have d: "only_delimiters '' . ,.''" by code_simp
  have t: "address_handler '' . ,.'' = Inr ['''']" by code_simp
  have p: "places_of example_townlands [] [] = []"
    by (simp add: places_of_def example_townlands_def)
  have c: "counties_of example_counties [] = []"
    by (simp add: counties_of_def example_counties_def)
  from delimiters_only_degrade [OF d t, of example_townlands example_counties]
    d t p c example_columns
  show ?thesis by simp
qed

end
